theory Spec2Isabelle
  imports Main "HOL-Library.Word"
begin

section \<open>Values of the program\<close>

text \<open>
  A Go \<^verbatim>\<open>error\<close> is nil or an error value; \<^verbatim>\<open>ErrTimeout\<close> is the package's own
  \<^verbatim>\<open>errors.New("timeout")\<close>, every other error value is tagged with a number.
\<close>

datatype err = ErrNil | ErrTimeout | ErrUser nat

text \<open>What makes a goroutine of this package panic.\<close>

datatype panic =
    NilParentContext      \<comment> \<open>\<^verbatim>\<open>context.WithTimeout(nil, d)\<close>: cannot create context from nil parent\<close>
  | EmptyDeque            \<comment> \<open>\<^verbatim>\<open>Front\<close> or \<^verbatim>\<open>PopFront\<close> on an empty deque\<close>
  | NilDereference        \<comment> \<open>call of a nil func, method call on a nil interface\<close>
  | CloseOfNilChannel
  | CloseOfClosedChannel
  | SendOnClosedChannel

text \<open>
  One step of a goroutine: it goes on in a new state, it panics, or it cannot take
  the step (the channel operation is not ready, the select has no such case).
\<close>

datatype 'a step = Next 'a | Panic panic | Blocked

text \<open>\<^verbatim>\<open>time.Duration\<close> is an int64.\<close>

type_synonym Duration = "64 word"

text \<open>
  A \<^verbatim>\<open>context.Context\<close>: the background context, whose \<^verbatim>\<open>Done()\<close> never becomes
  ready, or a cancellable context, named by the address of its \<^verbatim>\<open>Done()\<close> channel.
\<close>

datatype Context = Background | Ctx nat

section \<open>Tasks\<close>

text \<open>
  \<^verbatim>\<open>type poolTask struct { task func() error; Err chan error; done chan struct{};
  ctx context.Context; cancel context.CancelFunc }\<close>.
  The user function is nil (\<open>None\<close>) or a function that returns the given error when it
  returns; channels are addresses, a nil channel is \<open>None\<close>; the cancel function of a
  context is named by the address of that context. (\<open>done\<close> is a keyword of Isabelle,
  so the field is \<open>done_chan\<close>.)
\<close>

record poolTask =
  task :: "err option"
  Err :: nat
  done_chan :: "nat option"
  ctx :: "Context option"
  cancel :: "nat option"

text \<open>
  \<^verbatim>\<open>context.WithTimeout(parent, d)\<close> of the Go standard library: it panics on a nil
  parent, and otherwise returns a fresh cancellable context (allocated at address \<open>a\<close>)
  with its cancel function.
\<close>

definition WithTimeout :: "nat \<Rightarrow> Context option \<Rightarrow> Duration \<Rightarrow> panic + (Context \<times> nat)" where
  "WithTimeout a parent d =
     (case parent of None \<Rightarrow> Inl NilParentContext | Some c \<Rightarrow> Inr (Ctx a, a))"

text \<open>
  \<^verbatim>\<open>func NewTask(ctx context.Context, fn func() error, timeout ...time.Duration) poolTask\<close>.
  The first argument is the address at which the channels of the task are allocated.
\<close>

definition NewTask :: "nat \<Rightarrow> Context option \<Rightarrow> err option \<Rightarrow> Duration list \<Rightarrow> panic + poolTask" where
  "NewTask a c fn timeout =
     (case timeout of
        d # ds \<Rightarrow>
          (if 0 <s d
           then (case WithTimeout a c d of
                   Inl e \<Rightarrow> Inl e
                 | Inr (c', cancel') \<Rightarrow>
                     Inr \<lparr>task = fn, Err = a, done_chan = Some a, ctx = Some c', cancel = Some cancel'\<rparr>)
           else Inr \<lparr>task = fn, Err = a, done_chan = None, ctx = c, cancel = None\<rparr>)
      | [] \<Rightarrow> Inr \<lparr>task = fn, Err = a, done_chan = None, ctx = c, cancel = None\<rparr>)"

section \<open>The dispatcher\<close>

text \<open>
  What the dispatcher does, in program order: a send on \<^verbatim>\<open>workerQueue\<close> that a
  worker received (\<open>Send\<close> of an arriving task or a kill pill, \<open>SendFront\<close> of the front
  of the waiting queue, which is removed by \<^verbatim>\<open>PopFront\<close>), a \<^verbatim>\<open>PushBack\<close> on the
  waiting queue, the start of a worker goroutine, and the calls on the wait group, the
  idle timer, standard output and \<^verbatim>\<open>stoppedChan\<close>.
\<close>

datatype action =
    Send poolTask
  | SendFront poolTask
  | PushBack poolTask
  | WgAdd
  | Go poolTask
  | Println "64 word"
  | TimerReset
  | WgWait
  | TimerStop
  | CloseStopped

text \<open>
  The fields of \<^verbatim>\<open>WorkerPool\<close> that the dispatcher reads and writes: \<^verbatim>\<open>maxWorkers\<close>
  (an \<^verbatim>\<open>int\<close>, 64 bits wide), \<^verbatim>\<open>workerCount\<close> (an \<^verbatim>\<open>atomic.Int64\<close>),
  \<^verbatim>\<open>waitingQueue\<close> (the deque, its front at the head of the list), \<^verbatim>\<open>waiting\<close> (an
  \<^verbatim>\<open>int32\<close>) and \<^verbatim>\<open>wait\<close>. Then the locals of \<^verbatim>\<open>dispatch\<close>: the idle flag, the
  next free address of the allocator, and the log of the actions done so far.
\<close>

record WorkerPool =
  maxWorkers :: "64 word"
  workerCount :: "64 word"
  waitingQueue :: "poolTask list"
  waiting :: "32 word"
  wait :: bool

record dispatcher = WorkerPool +
  idle :: bool
  fresh :: nat
  log :: "action list"

text \<open>\<^verbatim>\<open>New\<close>, and the state in which \<^verbatim>\<open>dispatch\<close> enters its loop.\<close>

definition New :: "64 word \<Rightarrow> dispatcher" where
  "New n =
     \<lparr>maxWorkers = (if n <s 1 then 1 else n), workerCount = 0, waitingQueue = [],
      waiting = 0, wait = False, idle = False, fresh = 0, log = []\<rparr>"

text \<open>
  What resolves a select of the dispatcher: \<^verbatim>\<open>taskQueue\<close> delivers a task, \<^verbatim>\<open>taskQueue\<close>
  is closed, the idle timer fires, or a worker receives the value offered on
  \<^verbatim>\<open>workerQueue\<close>. The flag of \<open>Task\<close> and \<open>Tick\<close> tells whether a worker is blocked in
  its receive on \<^verbatim>\<open>workerQueue\<close> at that moment, which decides the non-blocking send that
  follows.
\<close>

datatype event = Task poolTask bool | Closed | Tick bool | Taken

text \<open>\<^verbatim>\<open>atomic.StoreInt32(&p.waiting, int32(p.waitingQueue.Len()))\<close>\<close>

definition storeWaiting :: "dispatcher \<Rightarrow> dispatcher" where
  "storeWaiting p = p\<lparr>waiting := word_of_nat (length (waitingQueue p))\<rparr>"

text \<open>
  \<^verbatim>\<open>processWaitingQueue\<close>: the operand \<^verbatim>\<open>p.waitingQueue.Front()\<close> of the send case is
  evaluated on entering the select; the select has no case for the timer.
\<close>

definition processWaitingQueue :: "event \<Rightarrow> dispatcher \<Rightarrow> (bool \<times> dispatcher) step" where
  "processWaitingQueue ev p =
     (case waitingQueue p of
        [] \<Rightarrow> Panic EmptyDeque
      | front # rest \<Rightarrow>
          (case ev of
             Task t ready \<Rightarrow>
               Next (True, storeWaiting (p\<lparr>waitingQueue := waitingQueue p @ [t],
                                           log := log p @ [PushBack t]\<rparr>))
           | Closed \<Rightarrow> Next (False, p)
           | Taken \<Rightarrow>
               Next (True, storeWaiting (p\<lparr>waitingQueue := rest, log := log p @ [SendFront front]\<rparr>))
           | Tick ready \<Rightarrow> Blocked))"

text \<open>\<^verbatim>\<open>killIdleWorker\<close>: a non-blocking send of \<^verbatim>\<open>NewTask(nil, nil)\<close>.\<close>

definition killIdleWorker :: "bool \<Rightarrow> dispatcher \<Rightarrow> (bool \<times> dispatcher) step" where
  "killIdleWorker ready p =
     (case NewTask (fresh p) None None [] of
        Inl e \<Rightarrow> Panic e
      | Inr pill \<Rightarrow>
          (if ready then Next (True, p\<lparr>fresh := Suc (fresh p), log := log p @ [Send pill]\<rparr>)
           else Next (False, p\<lparr>fresh := Suc (fresh p)\<rparr>)))"

text \<open>
  One iteration of the loop \<^verbatim>\<open>Loop\<close> of \<^verbatim>\<open>dispatch\<close>: \<open>onTask\<close> is the body of
  the case \<^verbatim>\<open>task, ok := <-p.taskQueue\<close> with \<^verbatim>\<open>ok\<close> true (lines 211 to 227),
  \<open>onTick\<close> the body of the case \<^verbatim>\<open><-timeout.C\<close> (lines 229 to 237). The flag of the
  result of \<open>dispatch_iter\<close> is \<open>False\<close> when the iteration leaves the loop
  (\<^verbatim>\<open>break Loop\<close>).
\<close>

definition onTask :: "poolTask \<Rightarrow> bool \<Rightarrow> dispatcher \<Rightarrow> dispatcher" where
  "onTask t ready p =
     (if ready then p\<lparr>log := log p @ [Send t]\<rparr>
      else if workerCount p <s maxWorkers p
      then p\<lparr>workerCount := workerCount p + 1,
             log := log p @ [WgAdd, Go t, Println (workerCount p + 1)]\<rparr>
      else storeWaiting (p\<lparr>waitingQueue := waitingQueue p @ [t], log := log p @ [PushBack t]\<rparr>))
     \<lparr>idle := False\<rparr>"

definition onTick :: "bool \<Rightarrow> dispatcher \<Rightarrow> dispatcher step" where
  "onTick ready p =
     (if idle p \<and> 0 <s workerCount p
      then (case killIdleWorker ready p of
              Next (True, p') \<Rightarrow>
                Next (p'\<lparr>workerCount := workerCount p' - 1, idle := True, log := log p' @ [TimerReset]\<rparr>)
            | Next (False, p') \<Rightarrow> Next (p'\<lparr>idle := True, log := log p' @ [TimerReset]\<rparr>)
            | Panic e \<Rightarrow> Panic e
            | Blocked \<Rightarrow> Blocked)
      else Next (p\<lparr>idle := True, log := log p @ [TimerReset]\<rparr>))"

definition dispatch_iter :: "event \<Rightarrow> dispatcher \<Rightarrow> (bool \<times> dispatcher) step" where
  "dispatch_iter ev p =
     (if waitingQueue p \<noteq> [] then processWaitingQueue ev p
      else (case ev of
              Task t ready \<Rightarrow> Next (True, onTask t ready p)
            | Closed \<Rightarrow> Next (False, p)
            | Tick ready \<Rightarrow>
                (case onTick ready p of
                   Next p' \<Rightarrow> Next (True, p')
                 | Panic e \<Rightarrow> Panic e
                 | Blocked \<Rightarrow> Blocked)
            | Taken \<Rightarrow> Blocked))"






section \<open>The pool's entry points\<close>

text \<open>
  A \<^verbatim>\<open>chan error\<close>: its buffer, its capacity, whether it is closed. The state that
  \<^verbatim>\<open>Submit\<close> and \<^verbatim>\<open>SubmitWait\<close> work on: the pool as the dispatcher owns it, the
  tasks sent on \<^verbatim>\<open>p.taskQueue\<close> so far, whether \<^verbatim>\<open>p.taskQueue\<close> is closed, and the
  error channels made so far, by address.
\<close>

record errchan =
  buf :: "err list"
  capacity :: nat
  closed :: bool

record world =
  pool :: dispatcher
  taskQueue :: "poolTask list"
  taskQueue_closed :: bool
  chans :: "nat \<Rightarrow> errchan option"

text \<open>
  \<^verbatim>\<open>Submit(ctx, fn, timeout)\<close>; \<open>a\<close> is the address at which it allocates. The result
  is the address of the channel returned. The channel \<^verbatim>\<open>make(chan error, 1)\<close> of
  \<^verbatim>\<open>NewTask\<close> is entered into \<open>chans\<close> here; the send on \<^verbatim>\<open>p.taskQueue\<close> panics
  when that channel is closed and is otherwise recorded as done.
\<close>

definition Submit :: "nat \<Rightarrow> Context option \<Rightarrow> err option \<Rightarrow> Duration \<Rightarrow> world \<Rightarrow> (nat \<times> world) step" where
  "Submit a c fn timeout w =
     (if fn \<noteq> None
      then (case NewTask a c fn [timeout] of
              Inl e \<Rightarrow> Panic e
            | Inr t \<Rightarrow>
                (if taskQueue_closed w then Panic SendOnClosedChannel
                 else Next (Err t,
                   w\<lparr>chans := (chans w)(Err t \<mapsto> \<lparr>buf = [], capacity = 1, closed = False\<rparr>),
                     taskQueue := taskQueue w @ [t]\<rparr>)))
      else Next (a, w\<lparr>chans := (chans w)(a \<mapsto> \<lparr>buf = [], capacity = 0, closed = True\<rparr>)\<rparr>))"

text \<open>
  \<^verbatim>\<open>SubmitWait(ctx, fn, timeout)\<close> either has returned an error value, or stands in
  its receive \<^verbatim>\<open><-t.Err\<close> from the channel at the address given.
\<close>

datatype waited = Returned err | Receiving nat

definition SubmitWait :: "nat \<Rightarrow> Context option \<Rightarrow> err option \<Rightarrow> Duration \<Rightarrow> world \<Rightarrow> (waited \<times> world) step" where
  "SubmitWait a c fn timeout w =
     (if fn = None then Next (Returned ErrNil, w)
      else (case NewTask a c fn [timeout] of
              Inl e \<Rightarrow> Panic e
            | Inr t \<Rightarrow>
                (if taskQueue_closed w then Panic SendOnClosedChannel
                 else Next (Receiving (Err t),
                   w\<lparr>chans := (chans w)(Err t \<mapsto> \<lparr>buf = [], capacity = 1, closed = False\<rparr>),
                     taskQueue := taskQueue w @ [t]\<rparr>))))"

section \<open>The worker and its helper goroutine\<close>

text \<open>
  Where the worker goroutine stands in \<^verbatim>\<open>worker\<close> (the numbers are the lines of
  workerpool.go), and where the goroutine it starts at line 293 stands.
\<close>

datatype wpc =
    WLoop             \<comment> \<open>307: \<^verbatim>\<open>for task.task != nil\<close>\<close>
  | WCall             \<comment> \<open>309: inside \<^verbatim>\<open>task.task()\<close>\<close>
  | WPublish err      \<comment> \<open>309: \<^verbatim>\<open>task.Err <- \<close> the value returned\<close>
  | WRecvQueue        \<comment> \<open>310: \<^verbatim>\<open>task = <-workerQueue\<close>\<close>
  | WSendTasks        \<comment> \<open>312: \<^verbatim>\<open>tasks <- task\<close>\<close>
  | WSelect           \<comment> \<open>316: \<^verbatim>\<open>select\<close> on \<^verbatim>\<open>task.done\<close> and \<^verbatim>\<open>task.ctx.Done()\<close>\<close>
  | WRecvErrCh        \<comment> \<open>318: \<^verbatim>\<open>err = <-errCh\<close>\<close>
  | WPublishT err     \<comment> \<open>323: \<^verbatim>\<open>task.Err <- err\<close>\<close>
  | WCancel           \<comment> \<open>324: \<^verbatim>\<open>task.cancel()\<close>\<close>
  | WRecvQueueT       \<comment> \<open>325: \<^verbatim>\<open>task = <-workerQueue\<close>\<close>
  | WWgDone           \<comment> \<open>328: \<^verbatim>\<open>wg.Done()\<close>\<close>
  | WCloseTasks       \<comment> \<open>291: the deferred \<^verbatim>\<open>close(tasks)\<close>\<close>
  | WExited

text \<open>The helper carries its loop variable \<^verbatim>\<open>execTask\<close> inside the loop body.\<close>

datatype hpc =
    HRange                    \<comment> \<open>294: \<^verbatim>\<open>for execTask := range tasks\<close>\<close>
  | HCall poolTask            \<comment> \<open>295: inside \<^verbatim>\<open>execTask.task()\<close>\<close>
  | HSelect poolTask err      \<comment> \<open>297: \<^verbatim>\<open>select\<close> with the value returned\<close>
  | HCloseDone poolTask       \<comment> \<open>303: \<^verbatim>\<open>close(execTask.done)\<close>\<close>
  | HExited

text \<open>
  The state of one worker: the two goroutines with their variables, the buffers of the
  channels \<^verbatim>\<open>errCh\<close> and \<^verbatim>\<open>tasks\<close> (capacity 1 each), and by address the buffers of
  the \<^verbatim>\<open>Err\<close> channels (capacity 1, as \<^verbatim>\<open>NewTask\<close> makes them), which \<^verbatim>\<open>done\<close>
  channels are closed and which contexts are done. Three fields only record history:
  \<open>sent\<close>, every value sent on each \<^verbatim>\<open>Err\<close> channel so far, \<open>cancels\<close>, how often
  each cancel function was called, and \<open>wg_done\<close>.
\<close>

record wstate =
  wpc :: wpc
  cur :: poolTask
  hpc :: hpc
  errCh :: "err list"
  tasks :: "poolTask list"
  tasks_closed :: bool
  results :: "nat \<Rightarrow> err list"
  sent :: "nat \<Rightarrow> err list"
  done_closed :: "nat \<Rightarrow> bool"
  ctx_done :: "nat \<Rightarrow> bool"
  cancels :: "nat \<Rightarrow> nat"
  wg_done :: bool

text \<open>\<^verbatim>\<open>worker(task, workerQueue, wg)\<close> at its loop, the helper started.\<close>

definition worker_init :: "poolTask \<Rightarrow> wstate" where
  "worker_init t =
     \<lparr>wpc = WLoop, cur = t, hpc = HRange, errCh = [], tasks = [],
      tasks_closed = False, results = (\<lambda>a. []), sent = (\<lambda>a. []),
      done_closed = (\<lambda>a. False), ctx_done = (\<lambda>a. False), cancels = (\<lambda>a. 0),
      wg_done = False\<rparr>"

text \<open>
  What the scheduler and the outside choose: a goroutine takes its next step (for a
  select, which of its cases is taken), the dispatcher hands a task over on
  \<^verbatim>\<open>workerQueue\<close>, the deadline of a context passes (or its parent is cancelled), the
  submitter receives from an \<^verbatim>\<open>Err\<close> channel.
\<close>

datatype wevent =
    Worker
  | WorkerDone
  | WorkerCtxDone
  | Handoff poolTask
  | Helper
  | HelperCtxDone
  | HelperSend
  | HelperDefault
  | Expire nat
  | Receive nat

text \<open>Whether a receive from \<^verbatim>\<open>c.Done()\<close> is ready; calling it on nil panics.\<close>

definition ctxReady :: "wstate \<Rightarrow> Context option \<Rightarrow> bool step" where
  "ctxReady s c =
     (case c of
        None \<Rightarrow> Panic NilDereference
      | Some Background \<Rightarrow> Next False
      | Some (Ctx a) \<Rightarrow> Next (ctx_done s a))"

text \<open>Whether a receive from a \<^verbatim>\<open>done\<close> channel is ready; a nil channel never is.\<close>

definition doneReady :: "wstate \<Rightarrow> nat option \<Rightarrow> bool" where
  "doneReady s d = (case d of None \<Rightarrow> False | Some a \<Rightarrow> done_closed s a)"

text \<open>Whether a send on the \<^verbatim>\<open>Err\<close> channel at an address is ready, and the send.\<close>

definition errReady :: "wstate \<Rightarrow> nat \<Rightarrow> bool" where
  "errReady s a = (length (results s a) < 1)"

definition sendErr :: "nat \<Rightarrow> err \<Rightarrow> wstate \<Rightarrow> wstate" where
  "sendErr a e s =
     s\<lparr>results := (results s)(a := results s a @ [e]), sent := (sent s)(a := sent s a @ [e])\<rparr>"

text \<open>The next step of the worker goroutine outside its select and its receives.\<close>

definition worker_step :: "wstate \<Rightarrow> wstate step" where
  "worker_step s =
     (case wpc s of
        WLoop \<Rightarrow>
          (if task (cur s) \<noteq> None
           then (if cancel (cur s) = None then Next (s\<lparr>wpc := WCall\<rparr>)
                 else Next (s\<lparr>wpc := WSendTasks\<rparr>))
           else Next (s\<lparr>wpc := WWgDone\<rparr>))
      | WCall \<Rightarrow>
          (case task (cur s) of
             None \<Rightarrow> Panic NilDereference
           | Some e \<Rightarrow> Next (s\<lparr>wpc := WPublish e\<rparr>))
      | WPublish e \<Rightarrow>
          (if errReady s (Err (cur s)) then Next ((sendErr (Err (cur s)) e s)\<lparr>wpc := WRecvQueue\<rparr>)
           else Blocked)
      | WSendTasks \<Rightarrow>
          (if tasks_closed s then Panic SendOnClosedChannel
           else if length (tasks s) < 1 then Next (s\<lparr>tasks := tasks s @ [cur s], wpc := WSelect\<rparr>)
           else Blocked)
      | WRecvErrCh \<Rightarrow>
          (case errCh s of
             [] \<Rightarrow> Blocked
           | e # es \<Rightarrow> Next (s\<lparr>errCh := es, wpc := WPublishT e\<rparr>))
      | WPublishT e \<Rightarrow>
          (if errReady s (Err (cur s)) then Next ((sendErr (Err (cur s)) e s)\<lparr>wpc := WCancel\<rparr>)
           else Blocked)
      | WCancel \<Rightarrow>
          (case cancel (cur s) of
             None \<Rightarrow> Panic NilDereference
           | Some c \<Rightarrow>
               Next (s\<lparr>ctx_done := (ctx_done s)(c := True),
                       cancels := (cancels s)(c := Suc (cancels s c)), wpc := WRecvQueueT\<rparr>))
      | WWgDone \<Rightarrow> Next (s\<lparr>wg_done := True, wpc := WCloseTasks\<rparr>)
      | WCloseTasks \<Rightarrow>
          (if tasks_closed s then Panic CloseOfClosedChannel
           else Next (s\<lparr>tasks_closed := True, wpc := WExited\<rparr>))
      | WRecvQueue \<Rightarrow> Blocked
      | WRecvQueueT \<Rightarrow> Blocked
      | WSelect \<Rightarrow> Blocked
      | WExited \<Rightarrow> Blocked)"

text \<open>
  The select of line 316. Its operands \<^verbatim>\<open>task.done\<close> and \<^verbatim>\<open>task.ctx.Done()\<close> are
  evaluated on entering it, whichever case is taken afterwards.
\<close>

definition worker_select :: "bool \<Rightarrow> wstate \<Rightarrow> wstate step" where
  "worker_select on_done s =
     (case wpc s of
        WSelect \<Rightarrow>
          (case ctxReady s (ctx (cur s)) of
             Panic e \<Rightarrow> Panic e
           | Blocked \<Rightarrow> Blocked
           | Next expired \<Rightarrow>
               (if on_done
                then (if doneReady s (done_chan (cur s)) then Next (s\<lparr>wpc := WRecvErrCh\<rparr>)
                      else Blocked)
                else (if expired then Next (s\<lparr>wpc := WPublishT ErrTimeout\<rparr>) else Blocked)))
      | _ \<Rightarrow> Blocked)"

text \<open>The receives of lines 310 and 325.\<close>

definition worker_receive :: "poolTask \<Rightarrow> wstate \<Rightarrow> wstate step" where
  "worker_receive t s =
     (case wpc s of
        WRecvQueue \<Rightarrow> Next (s\<lparr>cur := t, wpc := WLoop\<rparr>)
      | WRecvQueueT \<Rightarrow> Next (s\<lparr>cur := t, wpc := WLoop\<rparr>)
      | _ \<Rightarrow> Blocked)"

text \<open>The next step of the helper goroutine outside its select.\<close>

definition helper_step :: "wstate \<Rightarrow> wstate step" where
  "helper_step s =
     (case hpc s of
        HRange \<Rightarrow>
          (case tasks s of
             t # ts \<Rightarrow> Next (s\<lparr>tasks := ts, hpc := HCall t\<rparr>)
           | [] \<Rightarrow> (if tasks_closed s then Next (s\<lparr>hpc := HExited\<rparr>) else Blocked))
      | HCall execTask \<Rightarrow>
          (case task execTask of
             None \<Rightarrow> Panic NilDereference
           | Some e \<Rightarrow> Next (s\<lparr>hpc := HSelect execTask e\<rparr>))
      | HCloseDone execTask \<Rightarrow>
          (case done_chan execTask of
             None \<Rightarrow> Panic CloseOfNilChannel
           | Some d \<Rightarrow>
               (if done_closed s d then Panic CloseOfClosedChannel
                else Next (s\<lparr>done_closed := (done_closed s)(d := True), hpc := HRange\<rparr>)))
      | HSelect execTask e \<Rightarrow> Blocked
      | HExited \<Rightarrow> Blocked)"

text \<open>
  The select of line 297, with the case that is taken: \<^verbatim>\<open><-execTask.ctx.Done()\<close>,
  \<^verbatim>\<open>execTask.Err <- err\<close>, or \<^verbatim>\<open>default\<close>. A case can be taken when it is ready,
  \<^verbatim>\<open>default\<close> when no other case is; among several ready cases Go chooses any.
\<close>

datatype hcase = CaseCtxDone | CaseSend | CaseDefault

definition helper_select :: "hcase \<Rightarrow> wstate \<Rightarrow> wstate step" where
  "helper_select c s =
     (case hpc s of
        HSelect execTask e \<Rightarrow>
          (case ctxReady s (ctx execTask) of
             Panic x \<Rightarrow> Panic x
           | Blocked \<Rightarrow> Blocked
           | Next expired \<Rightarrow>
               (case c of
                  CaseCtxDone \<Rightarrow>
                    (if expired then Next (s\<lparr>hpc := HCloseDone execTask\<rparr>) else Blocked)
                | CaseSend \<Rightarrow>
                    (if errReady s (Err execTask)
                     then Next ((sendErr (Err execTask) e s)\<lparr>hpc := HCloseDone execTask\<rparr>)
                     else Blocked)
                | CaseDefault \<Rightarrow>
                    (if expired \<or> errReady s (Err execTask) then Blocked
                     else Next (s\<lparr>hpc := HCloseDone execTask\<rparr>))))
      | _ \<Rightarrow> Blocked)"

text \<open>The submitter's receive \<^verbatim>\<open><-t.Err\<close> from the channel at an address.\<close>

definition receive :: "nat \<Rightarrow> wstate \<Rightarrow> wstate step" where
  "receive a s =
     (case results s a of
        [] \<Rightarrow> Blocked
      | e # es \<Rightarrow> Next (s\<lparr>results := (results s)(a := es)\<rparr>))"

definition wstep :: "wevent \<Rightarrow> wstate \<Rightarrow> wstate step" where
  "wstep ev s =
     (case ev of
        Worker \<Rightarrow> worker_step s
      | WorkerDone \<Rightarrow> worker_select True s
      | WorkerCtxDone \<Rightarrow> worker_select False s
      | Handoff t \<Rightarrow> worker_receive t s
      | Helper \<Rightarrow> helper_step s
      | HelperCtxDone \<Rightarrow> helper_select CaseCtxDone s
      | HelperSend \<Rightarrow> helper_select CaseSend s
      | HelperDefault \<Rightarrow> helper_select CaseDefault s
      | Expire c \<Rightarrow> Next (s\<lparr>ctx_done := (ctx_done s)(c := True)\<rparr>)
      | Receive a \<Rightarrow> receive a s)"

text \<open>A schedule, run from a state; it stops at the first panic or step that cannot be taken.\<close>

fun wrun :: "wevent list \<Rightarrow> wstate \<Rightarrow> wstate step" where
  "wrun [] s = Next s"
| "wrun (ev # evs) s =
     (case wstep ev s of
        Next s' \<Rightarrow> wrun evs s'
      | Panic e \<Rightarrow> Panic e
      | Blocked \<Rightarrow> Blocked)"

section \<open>Notions used in the properties\<close>





text \<open>The same state with a nil \<^verbatim>\<open>ctx\<close> in the task that the worker holds.\<close>

definition nilCtx :: "wstate \<Rightarrow> wstate" where
  "nilCtx s = s\<lparr>cur := (cur s)\<lparr>ctx := None\<rparr>\<rparr>"

text \<open>
  An invariant of the worker while it runs a task without cancel function, its helper
  having nothing to do.
\<close>

definition direct_inv :: "wstate \<Rightarrow> bool" where
  "direct_inv s \<longleftrightarrow>
     cancel (cur s) = None \<and> tasks s = [] \<and> (hpc s = HRange \<or> hpc s = HExited) \<and>
     (wpc s = WLoop \<or> (wpc s = WCall \<and> task (cur s) \<noteq> None) \<or> (\<exists>e. wpc s = WPublish e) \<or>
      wpc s = WRecvQueue \<or> wpc s = WWgDone \<or> wpc s = WCloseTasks \<or> wpc s = WExited) \<and>
     (tasks_closed s \<longrightarrow> wpc s = WExited)"

section \<open>Arithmetic of the worker count\<close>

lemma sint_pred: "0 <s (w :: 64 word) \<Longrightarrow> sint (w - 1) = sint w - 1"
proof -
  assume a: "0 <s w"
  have lt: "sint w < 2 ^ 63" using sint_lt [of w] by simp
  have gt: "0 < sint w" using a by (simp add: word_sless_alt)
  have "sint (w - 1) = signed_take_bit 63 (sint w - 1)"
    by (simp add: sint_word_ariths)
  also have "\<dots> = sint w - 1"
    using lt gt by (simp add: signed_take_bit_int_eq_self_iff)
  finally show ?thesis .
qed

lemma sint_succ: "(w :: 64 word) <s m \<Longrightarrow> sint (w + 1) = sint w + 1"
proof -
  assume a: "w <s m"
  have lt: "sint m < 2 ^ 63" using sint_lt [of m] by simp
  have ge: "- (2 ^ 63) \<le> sint w" using sint_ge [of w] by simp
  have lt': "sint w < sint m" using a by (simp add: word_sless_alt)
  have "sint (w + 1) = signed_take_bit 63 (sint w + 1)"
    by (simp add: sint_word_ariths)
  also have "\<dots> = sint w + 1"
    using lt ge lt' by (simp add: signed_take_bit_int_eq_self_iff)
  finally show ?thesis .
qed

section \<open>The dispatcher in direct mode\<close>

text \<open>
  C4: a task that arrives while the waiting queue is empty is first offered to
  \<^verbatim>\<open>workerQueue\<close> without blocking; if no worker takes it and \<open>workerCount < maxWorkers\<close>,
  a worker is started with it and \<open>workerCount\<close> goes up by one (without overflow);
  otherwise it is pushed to the back of the waiting queue and \<open>waiting\<close> is stored. In
  each case the task ends in exactly one place, the idle flag is reset and the loop
  goes on.
\<close>

theorem direct_mode_task:
  assumes "waitingQueue p = []"
  shows "\<exists>p'. dispatch_iter (Task t ready) p = Next (True, p') \<and> idle p' = False \<and>
     maxWorkers p' = maxWorkers p \<and>
     (if ready
      then log p' = log p @ [Send t] \<and> workerCount p' = workerCount p \<and>
           waitingQueue p' = [] \<and> waiting p' = waiting p
      else if sint (workerCount p) < sint (maxWorkers p)
      then log p' = log p @ [WgAdd, Go t, Println (workerCount p')] \<and>
           workerCount p' = workerCount p + 1 \<and>
           sint (workerCount p') = sint (workerCount p) + 1 \<and>
           waitingQueue p' = [] \<and> waiting p' = waiting p
      else log p' = log p @ [PushBack t] \<and> workerCount p' = workerCount p \<and>
           waitingQueue p' = [t] \<and> waiting p' = 1)"
  using assms
  by (simp add: dispatch_iter_def onTask_def storeWaiting_def word_sless_alt [symmetric] sint_succ)

theorem direct_mode_task_witness:
  "waitingQueue ((New 1)\<lparr>workerCount := 1\<rparr>) = [] \<and>
   (\<exists>p'. dispatch_iter
      (Task \<lparr>task = Some ErrNil, Err = 7, done_chan = None, ctx = Some Background, cancel = None\<rparr> False)
      ((New 1)\<lparr>workerCount := 1\<rparr>) = Next (True, p') \<and>
      waitingQueue p' =
        [\<lparr>task = Some ErrNil, Err = 7, done_chan = None, ctx = Some Background, cancel = None\<rparr>] \<and>
      waiting p' = 1 \<and> workerCount p' = 1)"
  using direct_mode_task [of "(New 1)\<lparr>workerCount := 1\<rparr>"
      "\<lparr>task = Some ErrNil, Err = 7, done_chan = None, ctx = Some Background, cancel = None\<rparr>" False]
  by (auto simp: New_def)

text \<open>
  C6: on a tick of the idle timer in direct mode, a kill pill is offered to
  \<^verbatim>\<open>workerQueue\<close> exactly when the idle flag is set and \<open>workerCount > 0\<close>; \<open>workerCount\<close>
  goes down by one exactly when that send was taken and is unchanged otherwise; in
  every case the idle flag is set and the timer is reset.
\<close>

theorem idle_tick:
  assumes "waitingQueue p = []"
  shows "\<exists>p' sends. dispatch_iter (Tick ready) p = Next (True, p') \<and> idle p' \<and>
     log p' = log p @ sends @ [TimerReset] \<and> waitingQueue p' = [] \<and>
     (if idle p \<and> 0 < sint (workerCount p)
      then (if ready
            then (\<exists>pill. sends = [Send pill] \<and> task pill = None) \<and>
                 workerCount p' = workerCount p - 1 \<and>
                 sint (workerCount p') = sint (workerCount p) - 1
            else sends = [] \<and> workerCount p' = workerCount p)
      else sends = [] \<and> workerCount p' = workerCount p)"
proof -
  have pos: "(0 <s workerCount p) = (0 < sint (workerCount p))"
    by (simp add: word_sless_alt)
  show ?thesis
  proof (cases "idle p \<and> 0 < sint (workerCount p)")
    case True
    then have "sint (workerCount p - 1) = sint (workerCount p) - 1"
      using sint_pred [of "workerCount p"] pos by simp
    then show ?thesis
      using assms True pos
      by (simp add: dispatch_iter_def onTick_def killIdleWorker_def NewTask_def)
  next
    case False
    then show ?thesis
      using assms pos
      by (auto simp: dispatch_iter_def onTick_def)
  qed
qed

theorem idle_tick_witness:
  "waitingQueue ((New 1)\<lparr>workerCount := 1, idle := True\<rparr>) = [] \<and>
   (\<exists>p'. dispatch_iter (Tick True) ((New 1)\<lparr>workerCount := 1, idle := True\<rparr>) = Next (True, p') \<and>
      idle p' \<and> workerCount p' = 0)"
  using idle_tick [of "(New 1)\<lparr>workerCount := 1, idle := True\<rparr>" True]
  by (auto simp: New_def)

section \<open>Shutdown and the order of the waiting queue\<close>



















section \<open>Timeout supervision in the worker\<close>













lemma worker_step_leaves:
  assumes "worker_step s = Next s1" "wpc s \<noteq> WWgDone" "wpc s1 = WWgDone"
  shows "wpc s = WLoop \<and> task (cur s) = None"
  using assms
  by (cases "wpc s")
     (auto simp: worker_step_def errReady_def sendErr_def split: if_splits option.splits list.splits)

lemma worker_select_pc:
  assumes "worker_select b s = Next s1"
  shows "wpc s1 \<noteq> WWgDone"
  using assms
  by (cases "wpc s") (auto simp: worker_select_def split: if_splits step.splits)

lemma worker_receive_pc:
  assumes "worker_receive t s = Next s1"
  shows "wpc s1 \<noteq> WWgDone"
  using assms
  by (cases "wpc s") (auto simp: worker_receive_def)

lemma helper_step_pc:
  assumes "helper_step s = Next s1"
  shows "wpc s1 = wpc s"
  using assms
  by (cases "hpc s") (auto simp: helper_step_def split: if_splits option.splits list.splits)

lemma helper_select_pc:
  assumes "helper_select c s = Next s1"
  shows "wpc s1 = wpc s"
  using assms
  by (cases "hpc s"; cases c)
     (auto simp: helper_select_def sendErr_def split: if_splits step.splits)

lemma receive_pc:
  assumes "receive a s = Next s1"
  shows "wpc s1 = wpc s"
  using assms
  by (auto simp: receive_def split: list.splits)

text \<open>
  C10: at its loop test the worker leaves the loop exactly when the function of the
  task it holds is nil; no other step of any goroutine takes the worker out of the
  loop; and a worker that waits on \<^verbatim>\<open>workerQueue\<close> and receives a task with a nil
  function terminates, whatever the other fields of that task are, \<open>ctx\<close> included.
\<close>

theorem worker_exits_on_nil_fn:
  "(wpc s = WLoop \<longrightarrow>
      (\<exists>s'. wstep Worker s = Next s' \<and> (wpc s' = WWgDone) = (task (cur s) = None))) \<and>
   (wstep ev s = Next s1 \<and> wpc s \<noteq> WWgDone \<and> wpc s1 = WWgDone \<longrightarrow>
      wpc s = WLoop \<and> ev = Worker \<and> task (cur s) = None) \<and>
   ((wpc s = WRecvQueue \<or> wpc s = WRecvQueueT) \<and> task t = None \<and> \<not> tasks_closed s \<longrightarrow>
      (\<exists>s'. wrun [Handoff t, Worker, Worker, Worker] s = Next s' \<and> wpc s' = WExited \<and> wg_done s'))"
proof -
  have test: "wpc s = WLoop \<longrightarrow>
      (\<exists>s'. wstep Worker s = Next s' \<and> (wpc s' = WWgDone) = (task (cur s) = None))"
    by (auto simp: wstep_def worker_step_def)
  have only: "wpc s = WLoop \<and> ev = Worker \<and> task (cur s) = None"
    if a: "wstep ev s = Next s1 \<and> wpc s \<noteq> WWgDone \<and> wpc s1 = WWgDone"
  proof (cases ev)
    case Worker
    then show ?thesis using a worker_step_leaves [of s s1] by (simp add: wstep_def)
  next
    case WorkerDone
    then show ?thesis using a worker_select_pc [of True s s1] by (simp add: wstep_def)
  next
    case WorkerCtxDone
    then show ?thesis using a worker_select_pc [of False s s1] by (simp add: wstep_def)
  next
    case (Handoff t')
    then show ?thesis using a worker_receive_pc [of t' s s1] by (simp add: wstep_def)
  next
    case Helper
    then show ?thesis using a helper_step_pc [of s s1] by (simp add: wstep_def)
  next
    case HelperCtxDone
    then show ?thesis using a helper_select_pc [of CaseCtxDone s s1] by (simp add: wstep_def)
  next
    case HelperSend
    then show ?thesis using a helper_select_pc [of CaseSend s s1] by (simp add: wstep_def)
  next
    case HelperDefault
    then show ?thesis using a helper_select_pc [of CaseDefault s s1] by (simp add: wstep_def)
  next
    case (Expire c)
    then show ?thesis using a by (auto simp: wstep_def)
  next
    case (Receive x)
    then show ?thesis using a receive_pc [of x s s1] by (simp add: wstep_def)
  qed
  have pill: "(wpc s = WRecvQueue \<or> wpc s = WRecvQueueT) \<and> task t = None \<and> \<not> tasks_closed s \<longrightarrow>
      (\<exists>s'. wrun [Handoff t, Worker, Worker, Worker] s = Next s' \<and> wpc s' = WExited \<and> wg_done s')"
    by (auto simp: wstep_def worker_step_def worker_receive_def)
  show ?thesis
    using test only pill by blast
qed

theorem worker_exits_on_nil_fn_witness:
  "\<exists>s'. wrun
       [Handoff \<lparr>task = None, Err = 1, done_chan = None, ctx = Some Background, cancel = None\<rparr>,
        Worker, Worker, Worker]
       ((worker_init \<lparr>task = Some ErrNil, Err = 0, done_chan = None, ctx = Some Background, cancel = None\<rparr>)
          \<lparr>wpc := WRecvQueue\<rparr>) = Next s' \<and>
     wpc s' = WExited \<and> wg_done s'"
  using worker_exits_on_nil_fn
    [where s = "(worker_init \<lparr>task = Some ErrNil, Err = 0, done_chan = None, ctx = Some Background,
                   cancel = None\<rparr>)\<lparr>wpc := WRecvQueue\<rparr>"
       and t = "\<lparr>task = None, Err = 1, done_chan = None, ctx = Some Background, cancel = None\<rparr>"]
  by (simp add: worker_init_def)

section \<open>Publication of the outcome of a task with a timeout\<close>

lemma stuck_step:
  assumes "wpc s = WRecvErrCh" "errCh s = []" "wstep ev s = Next s'"
  shows "wpc s' = WRecvErrCh \<and> errCh s' = [] \<and> cancels s' = cancels s"
  using assms
  by (cases ev)
     (auto simp: wstep_def worker_step_def worker_select_def worker_receive_def helper_step_def
        helper_select_def receive_def ctxReady_def doneReady_def errReady_def sendErr_def split: hpc.splits list.splits option.splits if_splits step.splits Context.splits)

lemma stuck_run:
  assumes "wrun evs s = Next s'" "wpc s = WRecvErrCh" "errCh s = []"
  shows "wpc s' = WRecvErrCh \<and> errCh s' = [] \<and> cancels s' = cancels s"
  using assms
proof (induction evs arbitrary: s)
  case Nil
  then show ?case by simp
next
  case (Cons ev evs)
  then obtain s1 where s1: "wstep ev s = Next s1" "wrun evs s1 = Next s'"
    by (auto split: step.splits)
  from stuck_step [OF Cons.prems(2,3) s1(1)] Cons.IH [OF s1(2)] show ?case by simp
qed

text \<open>
  C1, at a task with a timeout whose function returns before the deadline: the helper
  publishes the function's value on \<^verbatim>\<open>Err\<close> and closes \<^verbatim>\<open>done\<close>, the worker takes the
  case \<^verbatim>\<open><-task.done\<close> and then stands in \<^verbatim>\<open><-errCh\<close>, a channel that nothing sends
  on. In every continuation it stays there: the cancel function is never called and no
  further task is received from \<^verbatim>\<open>workerQueue\<close>.
\<close>

theorem timely_completion_hangs_worker:
  "\<exists>t s. NewTask 0 (Some Background) (Some ErrNil) [1] = Inr t \<and>
     wrun [Worker, Worker, Helper, Helper, HelperSend, Helper, WorkerDone] (worker_init t) = Next s \<and>
     ctx_done s 0 = False \<and> sent s (Err t) = [ErrNil] \<and> wpc s = WRecvErrCh \<and>
     (\<forall>evs. case wrun evs s of
              Next s' \<Rightarrow> wpc s' = WRecvErrCh \<and> cancels s' 0 = 0
            | Panic e \<Rightarrow> True
            | Blocked \<Rightarrow> True) \<and>
     (\<forall>t'. wstep (Handoff t') s = Blocked)"
proof -
  define t where "t = \<lparr>task = Some ErrNil, Err = 0, done_chan = Some 0, ctx = Some (Ctx 0), cancel = Some 0\<rparr>"
  define s where "s = (worker_init t)\<lparr>wpc := WRecvErrCh, results := (\<lambda>a. [])(0 := [ErrNil]),
     sent := (\<lambda>a. [])(0 := [ErrNil]), done_closed := (\<lambda>a. False)(0 := True)\<rparr>"
  have nt: "NewTask 0 (Some Background) (Some ErrNil) [1] = Inr t"
    by (simp add: NewTask_def WithTimeout_def t_def word_sless_alt)
  have run: "wrun [Worker, Worker, Helper, Helper, HelperSend, Helper, WorkerDone] (worker_init t) = Next s"
    by (simp add: wstep_def worker_step_def worker_select_def helper_step_def helper_select_def
          ctxReady_def doneReady_def errReady_def sendErr_def worker_init_def t_def s_def)
  have facts: "wpc s = WRecvErrCh" "errCh s = []" "cancels s 0 = 0" "ctx_done s 0 = False"
      "sent s (Err t) = [ErrNil]"
    by (simp_all add: s_def worker_init_def t_def)
  have stuck: "\<And>evs. case wrun evs s of
              Next s' \<Rightarrow> wpc s' = WRecvErrCh \<and> cancels s' 0 = 0
            | Panic e \<Rightarrow> True
            | Blocked \<Rightarrow> True"
  proof -
    fix evs
    show "case wrun evs s of
              Next s' \<Rightarrow> wpc s' = WRecvErrCh \<and> cancels s' 0 = 0
            | Panic e \<Rightarrow> True
            | Blocked \<Rightarrow> True"
      using stuck_run [of evs s] facts by (auto split: step.splits)
  qed
  have blocked: "\<And>t'. wstep (Handoff t') s = Blocked"
    using facts(1) by (simp add: wstep_def worker_receive_def)
  show ?thesis
    using nt run facts stuck blocked by blast
qed

text \<open>
  C2, at a task with a timeout whose deadline passes while the function runs. In the
  first schedule the worker publishes \<^verbatim>\<open>ErrTimeout\<close>, the submitter receives it, the
  function returns and the helper's select, with both \<^verbatim>\<open><-execTask.ctx.Done()\<close> and
  the send ready, takes the send: two values are sent on \<^verbatim>\<open>Err\<close>. In the second the
  helper's select takes \<^verbatim>\<open><-execTask.ctx.Done()\<close>, the worker's select takes
  \<^verbatim>\<open><-task.done\<close>, and the worker stands in \<^verbatim>\<open><-errCh\<close> with nothing sent on
  \<^verbatim>\<open>Err\<close> at all.
\<close>

theorem both_outcomes_published:
  "\<exists>t s s'. NewTask 0 (Some Background) (Some ErrNil) [1] = Inr t \<and>
     wrun [Worker, Worker, Helper, Expire 0, WorkerCtxDone, Worker, Worker, Receive 0, Helper, HelperSend]
       (worker_init t) = Next s \<and>
     sent s (Err t) = [ErrTimeout, ErrNil] \<and>
     wrun [Worker, Worker, Helper, Expire 0, Helper, HelperCtxDone, Helper, WorkerDone]
       (worker_init t) = Next s' \<and>
     sent s' (Err t) = [] \<and> wpc s' = WRecvErrCh \<and> errCh s' = []"
  by (simp add: NewTask_def WithTimeout_def word_sless_alt wstep_def worker_step_def
        worker_select_def helper_step_def helper_select_def receive_def ctxReady_def doneReady_def
        errReady_def sendErr_def worker_init_def)

section \<open>Nil contexts and nil functions\<close>

lemma direct_worker_step:
  assumes "direct_inv s"
  shows "worker_step (nilCtx s) = map_step nilCtx (worker_step s) \<and>
         (\<forall>e. worker_step s \<noteq> Panic e) \<and> (\<forall>s'. worker_step s = Next s' \<longrightarrow> direct_inv s')"
  using assms
  by (cases "wpc s")
     (auto simp: direct_inv_def nilCtx_def worker_step_def errReady_def sendErr_def)

lemma direct_worker_select:
  assumes "direct_inv s"
  shows "worker_select b (nilCtx s) = map_step nilCtx (worker_select b s) \<and>
         (\<forall>e. worker_select b s \<noteq> Panic e) \<and> (\<forall>s'. worker_select b s = Next s' \<longrightarrow> direct_inv s')"
  using assms
  by (cases "wpc s") (auto simp: direct_inv_def nilCtx_def worker_select_def)

lemma direct_helper_step:
  assumes "direct_inv s"
  shows "helper_step (nilCtx s) = map_step nilCtx (helper_step s) \<and>
         (\<forall>e. helper_step s \<noteq> Panic e) \<and> (\<forall>s'. helper_step s = Next s' \<longrightarrow> direct_inv s')"
  using assms
  by (cases "hpc s") (auto simp: direct_inv_def nilCtx_def helper_step_def)

lemma direct_helper_select:
  assumes "direct_inv s"
  shows "helper_select c (nilCtx s) = map_step nilCtx (helper_select c s) \<and>
         (\<forall>e. helper_select c s \<noteq> Panic e) \<and> (\<forall>s'. helper_select c s = Next s' \<longrightarrow> direct_inv s')"
  using assms
  by (cases "hpc s") (auto simp: direct_inv_def nilCtx_def helper_select_def)

lemma direct_receive:
  assumes "direct_inv s"
  shows "receive a (nilCtx s) = map_step nilCtx (receive a s) \<and>
         (\<forall>e. receive a s \<noteq> Panic e) \<and> (\<forall>s'. receive a s = Next s' \<longrightarrow> direct_inv s')"
  using assms
  by (auto simp: direct_inv_def nilCtx_def receive_def split: list.splits)

lemma direct_step:
  assumes "direct_inv s" "\<forall>t'. ev \<noteq> Handoff t'"
  shows "wstep ev (nilCtx s) = map_step nilCtx (wstep ev s) \<and>
         (\<forall>e. wstep ev s \<noteq> Panic e) \<and> (\<forall>s'. wstep ev s = Next s' \<longrightarrow> direct_inv s')"
proof (cases ev)
  case Worker
  then show ?thesis using direct_worker_step [OF assms(1)] by (simp add: wstep_def)
next
  case WorkerDone
  then show ?thesis using direct_worker_select [OF assms(1), of True] by (simp add: wstep_def)
next
  case WorkerCtxDone
  then show ?thesis using direct_worker_select [OF assms(1), of False] by (simp add: wstep_def)
next
  case (Handoff t')
  then show ?thesis using assms(2) by simp
next
  case Helper
  then show ?thesis using direct_helper_step [OF assms(1)] by (simp add: wstep_def)
next
  case HelperCtxDone
  then show ?thesis using direct_helper_select [OF assms(1), of CaseCtxDone] by (simp add: wstep_def)
next
  case HelperSend
  then show ?thesis using direct_helper_select [OF assms(1), of CaseSend] by (simp add: wstep_def)
next
  case HelperDefault
  then show ?thesis using direct_helper_select [OF assms(1), of CaseDefault] by (simp add: wstep_def)
next
  case (Expire c)
  then show ?thesis using assms(1) by (auto simp: wstep_def direct_inv_def nilCtx_def)
next
  case (Receive a)
  then show ?thesis using direct_receive [OF assms(1), of a] by (simp add: wstep_def)
qed

lemma direct_run:
  assumes "direct_inv s" "\<forall>t'. Handoff t' \<notin> set evs"
  shows "wrun evs (nilCtx s) = map_step nilCtx (wrun evs s) \<and> (\<forall>e. wrun evs s \<noteq> Panic e)"
  using assms
proof (induction evs arbitrary: s)
  case Nil
  then show ?case by simp
next
  case (Cons ev evs)
  have ev: "\<forall>t'. ev \<noteq> Handoff t'" and evs: "\<forall>t'. Handoff t' \<notin> set evs"
    using Cons.prems(2) by auto
  note st = direct_step [OF Cons.prems(1) ev]
  show ?case
  proof (cases "wstep ev s")
    case (Next s1)
    then have "direct_inv s1" using st by simp
    from Cons.IH [OF this evs] Next st show ?thesis by simp
  next
    case (Panic e)
    then show ?thesis using st by simp
  next
    case Blocked
    then show ?thesis using st by simp
  qed
qed

text \<open>
  C3, as the code has it: with a timeout that is not positive, \<^verbatim>\<open>NewTask\<close> with a nil
  context builds the task it builds with \<^verbatim>\<open>context.Background()\<close>, apart from the
  \<open>ctx\<close> field; \<^verbatim>\<open>Submit\<close> sends that task and fails only where it fails with the
  background context; and while the worker runs the task, every schedule gives the same
  result for both, the \<open>ctx\<close> of the held task apart, and never a panic.
\<close>

theorem nil_ctx_without_timeout:
  assumes "\<not> 0 <s d" and "\<forall>t'. Handoff t' \<notin> set evs"
  shows "\<exists>t. NewTask a (Some Background) fn [d] = Inr t \<and>
     NewTask a None fn [d] = Inr (t\<lparr>ctx := None\<rparr>) \<and>
     (fn \<noteq> None \<longrightarrow>
        Submit a (Some Background) fn d w =
          (if taskQueue_closed w then Panic SendOnClosedChannel
           else Next (a, w\<lparr>chans := (chans w)(a \<mapsto> \<lparr>buf = [], capacity = 1, closed = False\<rparr>),
                           taskQueue := taskQueue w @ [t]\<rparr>)) \<and>
        Submit a None fn d w =
          (if taskQueue_closed w then Panic SendOnClosedChannel
           else Next (a, w\<lparr>chans := (chans w)(a \<mapsto> \<lparr>buf = [], capacity = 1, closed = False\<rparr>),
                           taskQueue := taskQueue w @ [t\<lparr>ctx := None\<rparr>]\<rparr>))) \<and>
     wrun evs (worker_init (t\<lparr>ctx := None\<rparr>)) = map_step nilCtx (wrun evs (worker_init t)) \<and>
     (\<forall>e. wrun evs (worker_init (t\<lparr>ctx := None\<rparr>)) \<noteq> Panic e)"
proof -
  define t where "t = \<lparr>task = fn, Err = a, done_chan = None, ctx = Some Background, cancel = None\<rparr>"
  have bg: "NewTask a (Some Background) fn [d] = Inr t"
    using assms(1) by (simp add: NewTask_def t_def)
  have nil: "NewTask a None fn [d] = Inr (t\<lparr>ctx := None\<rparr>)"
    using assms(1) by (simp add: NewTask_def t_def)
  have inv: "direct_inv (worker_init t)"
    by (simp add: direct_inv_def worker_init_def t_def)
  have same: "worker_init (t\<lparr>ctx := None\<rparr>) = nilCtx (worker_init t)"
    by (simp add: worker_init_def nilCtx_def)
  note run = direct_run [OF inv assms(2)]
  have "wrun evs (worker_init (t\<lparr>ctx := None\<rparr>)) = map_step nilCtx (wrun evs (worker_init t))"
    using run same by simp
  moreover have "\<forall>e. wrun evs (worker_init (t\<lparr>ctx := None\<rparr>)) \<noteq> Panic e"
  proof
    fix e
    show "wrun evs (worker_init (t\<lparr>ctx := None\<rparr>)) \<noteq> Panic e"
      using run same by (cases "wrun evs (worker_init t)") simp_all
  qed
  moreover have "fn \<noteq> None \<longrightarrow>
        Submit a (Some Background) fn d w =
          (if taskQueue_closed w then Panic SendOnClosedChannel
           else Next (a, w\<lparr>chans := (chans w)(a \<mapsto> \<lparr>buf = [], capacity = 1, closed = False\<rparr>),
                           taskQueue := taskQueue w @ [t]\<rparr>)) \<and>
        Submit a None fn d w =
          (if taskQueue_closed w then Panic SendOnClosedChannel
           else Next (a, w\<lparr>chans := (chans w)(a \<mapsto> \<lparr>buf = [], capacity = 1, closed = False\<rparr>),
                           taskQueue := taskQueue w @ [t\<lparr>ctx := None\<rparr>]\<rparr>))"
    using bg nil by (simp add: Submit_def t_def)
  ultimately show ?thesis
    using bg nil by blast
qed

theorem nil_ctx_without_timeout_witness:
  "\<not> 0 <s (0 :: 64 word) \<and> (\<forall>t'. Handoff t' \<notin> set [Worker, Worker, Worker]) \<and>
   (\<exists>t. NewTask 0 None (Some ErrNil) [0] = Inr (t\<lparr>ctx := None\<rparr>) \<and>
      wrun [Worker, Worker, Worker] (worker_init (t\<lparr>ctx := None\<rparr>))
        = map_step nilCtx (wrun [Worker, Worker, Worker] (worker_init t)))"
proof -
  have h1: "\<not> 0 <s (0 :: 64 word)" by simp
  have h2: "\<forall>t'. Handoff t' \<notin> set [Worker, Worker, Worker]" by simp
  from nil_ctx_without_timeout [OF h1 h2, where a = 0 and fn = "Some ErrNil"] h1 h2
  show ?thesis by blast
qed

text \<open>
  With a positive timeout the claim C3 fails: \<^verbatim>\<open>NewTask\<close> calls
  \<^verbatim>\<open>context.WithTimeout\<close> on the nil parent, which panics, where the background
  context gives a task.
\<close>

theorem nil_ctx_with_timeout_counterexample:
  "NewTask 0 None (Some ErrNil) [1] = Inl NilParentContext \<and>
   NewTask 0 (Some Background) (Some ErrNil) [1] =
     Inr \<lparr>task = Some ErrNil, Err = 0, done_chan = Some 0, ctx = Some (Ctx 0), cancel = Some 0\<rparr>"
  by (simp add: NewTask_def WithTimeout_def word_sless_alt)

text \<open>
  C8: with a nil function, for every context and timeout and in every state,
  \<^verbatim>\<open>Submit\<close> returns a new channel that is closed and empty, sends nothing on
  \<^verbatim>\<open>taskQueue\<close> and leaves the pool as it is (it does not fail even where \<^verbatim>\<open>NewTask\<close>
  or the send would); \<^verbatim>\<open>SubmitWait\<close> returns nil at once and changes nothing.
\<close>

theorem submit_nil_fn:
  "(\<exists>w'. Submit a c None d w = Next (a, w') \<and> taskQueue w' = taskQueue w \<and> pool w' = pool w \<and>
      taskQueue_closed w' = taskQueue_closed w \<and>
      chans w' a = Some \<lparr>buf = [], capacity = 0, closed = True\<rparr>) \<and>
   SubmitWait a c None d w = Next (Returned ErrNil, w)"
  by (simp add: Submit_def SubmitWait_def)

end
